theory Spec2Isabelle
  imports Main "HOL-Library.Multiset"
begin

section \<open>Strings and the regular expressions of the scripts\<close>

text \<open>
  A document is a Python \<open>str\<close>; it is modelled as a \<open>string\<close> whose characters are the
  code points below 256, which hold the markup and the Danish text of the chapters.  Every
  regular expression of the scripts is translated into a function that returns what
  Python's backtracking matcher returns for that pattern; where the pattern has a greedy or
  lazy operator, the text in front of the function says why the matcher can only stop
  where the function stops.

  \<open>isspace\<close> is the class \<open>\s\<close> of \<open>re\<close> on \<open>str\<close> patterns, which is also the set that
  \<open>str.strip()\<close> removes: 0x09-0x0D, 0x1C-0x20, 0x85 and 0xA0.
\<close>

definition isspace :: "char \<Rightarrow> bool" where
  "isspace c =
     (let n = (of_char c :: nat)
      in (9 \<le> n \<and> n \<le> 13) \<or> (28 \<le> n \<and> n \<le> 32) \<or> n = 133 \<or> n = 160)"

text \<open>\<open>s.strip()\<close>\<close>

definition strip :: "string \<Rightarrow> string" where
  "strip s = rev (dropWhile isspace (rev (dropWhile isspace s)))"

text \<open>
  Case folding of \<open>re.IGNORECASE\<close>.  The patterns hold ASCII letters only, and below 256 the
  only characters that match an ASCII letter without regard to case are its two ASCII forms.
\<close>

definition ascii_lower :: "char \<Rightarrow> char" where
  "ascii_lower c =
     (let n = (of_char c :: nat) in if 65 \<le> n \<and> n \<le> 90 then char_of (n + 32) else c)"

text \<open>\<open>s.startswith(p)\<close>, and the same without regard to case (\<open>p\<close> in lower case).\<close>

definition startswith :: "string \<Rightarrow> string \<Rightarrow> bool" where
  "startswith s p = (take (length p) s = p)"

definition startswith_ci :: "string \<Rightarrow> string \<Rightarrow> bool" where
  "startswith_ci s p = (map ascii_lower (take (length p) s) = p)"

text \<open>\<open>s.endswith(p)\<close>\<close>

definition endswith :: "string \<Rightarrow> string \<Rightarrow> bool" where
  "endswith s p = startswith (rev s) (rev p)"

text \<open>\<open>s.rstrip()\<close>\<close>

definition rstrip :: "string \<Rightarrow> string" where
  "rstrip s = rev (dropWhile isspace (rev s))"

text \<open>
  \<open>find_sub p s\<close> cuts \<open>s\<close> at the first occurrence of \<open>p\<close>: the text before it and the text
  after it (\<open>s.partition(p)\<close> when \<open>p\<close> occurs).  It is the meaning of a lazy \<open>.*?p\<close> under
  \<open>re.DOTALL\<close>.
\<close>

fun find_sub :: "string \<Rightarrow> string \<Rightarrow> (string \<times> string) option" where
  "find_sub p [] = (if p = [] then Some ([], []) else None)"
| "find_sub p (c # cs) =
     (if startswith (c # cs) p then Some ([], drop (length p) (c # cs))
      else (case find_sub p cs of None \<Rightarrow> None | Some (a, b) \<Rightarrow> Some (c # a, b)))"

fun find_sub_ci :: "string \<Rightarrow> string \<Rightarrow> (string \<times> string) option" where
  "find_sub_ci p [] = (if p = [] then Some ([], []) else None)"
| "find_sub_ci p (c # cs) =
     (if startswith_ci (c # cs) p then Some ([], drop (length p) (c # cs))
      else (case find_sub_ci p cs of None \<Rightarrow> None | Some (a, b) \<Rightarrow> Some (c # a, b)))"

text \<open>
  \<open>re.sub(pattern, repl, s)\<close> for a pattern that matches no empty string and looks at
  nothing before the position it is tried at.  \<open>m u\<close> is the length of the match of the
  pattern at the start of \<open>u\<close>, if there is one; \<open>r\<close> maps the matched text to its
  replacement.  The scan goes from left to right; after a match it resumes behind it
  (the counter is the number of matched characters still to skip).
\<close>

fun sub_scan :: "(string \<Rightarrow> nat option) \<Rightarrow> (string \<Rightarrow> string) \<Rightarrow> nat \<Rightarrow> string \<Rightarrow> string" where
  "sub_scan m r k [] = []"
| "sub_scan m r (Suc k) (c # cs) = sub_scan m r k cs"
| "sub_scan m r 0 (c # cs) =
     (case m (c # cs) of
        Some (Suc n) \<Rightarrow> r (take (Suc n) (c # cs)) @ sub_scan m r n cs
      | _ \<Rightarrow> c # sub_scan m r 0 cs)"

definition re_sub :: "(string \<Rightarrow> nat option) \<Rightarrow> (string \<Rightarrow> string) \<Rightarrow> string \<Rightarrow> string" where
  "re_sub m r s = sub_scan m r 0 s"

text \<open>\<open>p in s\<close>\<close>

definition contains :: "string \<Rightarrow> string \<Rightarrow> bool" where
  "contains s p = (find_sub p s \<noteq> None)"

text \<open>
  \<open>find_between p q s\<close> is the leftmost match of \<open>p.*?q\<close> under \<open>re.DOTALL\<close> for two
  literal texts: the leftmost \<open>p\<close> that has a \<open>q\<close> behind it is the first \<open>p\<close> of the text,
  and the lazy \<open>.*?\<close> stops at the first \<open>q\<close> behind it.  The result is the text before
  the match, the text between \<open>p\<close> and \<open>q\<close>, and the text after the match.
\<close>

definition find_between :: "string \<Rightarrow> string \<Rightarrow> string \<Rightarrow> (string \<times> string \<times> string) option" where
  "find_between p q s =
     (case find_sub p s of
        None \<Rightarrow> None
      | Some (before, rest) \<Rightarrow>
          (case find_sub q rest of
             None \<Rightarrow> None
           | Some (inner, after) \<Rightarrow> Some (before, inner, after)))"

text \<open>
  \<open>re.search\<close> for a pattern given by its matcher: the text before the leftmost match, the
  match, and the text after it.
\<close>

fun re_search :: "(string \<Rightarrow> nat option) \<Rightarrow> string \<Rightarrow> (string \<times> string \<times> string) option" where
  "re_search m [] = None"
| "re_search m (c # cs) =
     (case m (c # cs) of
        Some (Suc n) \<Rightarrow> Some ([], c # take n cs, drop n cs)
      | _ \<Rightarrow> (case re_search m cs of
                None \<Rightarrow> None
              | Some (a, h, r) \<Rightarrow> Some (c # a, h, r)))"

text \<open>
  \<open>re.split\<close> for a pattern that is one capturing group: the texts between the matches
  alternate with the matches, so the list has an odd number of elements.
\<close>

function re_split :: "(string \<Rightarrow> nat option) \<Rightarrow> string \<Rightarrow> string list" where
  "re_split m s =
     (case re_search m s of
        None \<Rightarrow> [s]
      | Some (a, h, r) \<Rightarrow> a # h # re_split m r)"
  by pat_completeness auto
termination
proof (relation "measure (\<lambda>(m, s). length s)")
  show "wf (measure (\<lambda>(m :: string \<Rightarrow> nat option, s :: string). length s))"
    by simp
next
  fix m :: "string \<Rightarrow> nat option" and s :: string and x2 a y h r
  assume found: "re_search m s = Some x2" and x2: "(a, y) = x2" and y: "(h, r) = y"
  have shorter: "re_search m t = Some (a', h', r') \<Longrightarrow> length r' < length t" for t a' h' r'
  proof (induction t arbitrary: a')
    case Nil
    then show ?case by simp
  next
    case (Cons c cs)
    then show ?case
      by (fastforce split: option.splits nat.splits)
  qed
  from found x2 y have "re_search m s = Some (a, h, r)" by simp
  then have "length r < length s" by (rule shorter)
  then show "((m, r), (m, s)) \<in> measure (\<lambda>(m, s). length s)" by simp
qed

declare re_split.simps [simp del]

text \<open>
  \<open>re.finditer\<close> for a pattern given by its matcher: the matched texts from left to right,
  none overlapping the one before.
\<close>

fun find_scan :: "(string \<Rightarrow> nat option) \<Rightarrow> nat \<Rightarrow> string \<Rightarrow> string list" where
  "find_scan m k [] = []"
| "find_scan m (Suc k) (c # cs) = find_scan m k cs"
| "find_scan m 0 (c # cs) =
     (case m (c # cs) of
        Some (Suc n) \<Rightarrow> take (Suc n) (c # cs) # find_scan m n cs
      | _ \<Rightarrow> find_scan m 0 cs)"


section \<open>Text Extractor (extract_chapter_text.py)\<close>

text \<open>\<open>re.search(r'<article>(.*?)</article>', html, re.DOTALL)\<close>\<close>

definition search_article :: "string \<Rightarrow> (string \<times> string \<times> string) option" where
  "search_article html = find_between ''<article>'' ''</article>'' html"

text \<open>\<open></(p|div|h[1-6]|li|tr|th|td)>\<close> with \<open>re.IGNORECASE\<close>\<close>

definition block_close_tags :: "string list" where
  "block_close_tags =
     [''</p>'', ''</div>'', ''</h1>'', ''</h2>'', ''</h3>'', ''</h4>'', ''</h5>'', ''</h6>'',
      ''</li>'', ''</tr>'', ''</th>'', ''</td>'']"

definition match_block_close :: "string \<Rightarrow> nat option" where
  "match_block_close s =
     (case filter (startswith_ci s) block_close_tags of
        [] \<Rightarrow> None
      | t # _ \<Rightarrow> Some (length t))"

text \<open>
  \<open><script[^>]*>.*?</script>\<close> and \<open><style[^>]*>.*?</style>\<close> with
  \<open>re.DOTALL | re.IGNORECASE\<close>: the greedy \<open>[^>]*\<close> can only end at the first \<open>>\<close>, the lazy
  \<open>.*?\<close> at the first closing tag behind it.
\<close>

definition match_element :: "string \<Rightarrow> string \<Rightarrow> string \<Rightarrow> nat option" where
  "match_element open close s =
     (if startswith_ci s open then
        (case find_sub ''>'' (drop (length open) s) of
           None \<Rightarrow> None
         | Some (attrs, rest) \<Rightarrow>
             (case find_sub_ci close rest of
                None \<Rightarrow> None
              | Some (body, _) \<Rightarrow>
                  Some (length open + length attrs + 1 + length body + length close)))
      else None)"

text \<open>\<open><[^>]+>\<close>: at least one character between the brackets.\<close>

definition match_tag :: "string \<Rightarrow> nat option" where
  "match_tag s =
     (case s of
        [] \<Rightarrow> None
      | c # rest \<Rightarrow>
          if c = CHR ''<'' then
            (case find_sub ''>'' rest of
               None \<Rightarrow> None
             | Some (inner, _) \<Rightarrow> if inner = [] then None else Some (length inner + 2))
          else None)"

text \<open>A pattern without operators, such as \<open>&nbsp;\<close>.\<close>

definition match_literal :: "string \<Rightarrow> string \<Rightarrow> nat option" where
  "match_literal p s = (if startswith s p then Some (length p) else None)"

text \<open>\<open>\s+\<close>\<close>

definition match_spaces :: "string \<Rightarrow> nat option" where
  "match_spaces s =
     (let n = length (takeWhile isspace s) in if 0 < n then Some n else None)"

text \<open>
  \<open> *\n *\<close>: the blanks before the line feed are the whole run of blanks at the position
  (with fewer of them the next character is a blank, not a line feed).
\<close>

definition match_padded_newline :: "string \<Rightarrow> nat option" where
  "match_padded_newline s =
     (let a = takeWhile (\<lambda>c. c = CHR '' '') s
      in case drop (length a) s of
           [] \<Rightarrow> None
         | c # t \<Rightarrow>
             if c = CHR ''\<newline>''
             then Some (length a + 1 + length (takeWhile (\<lambda>c. c = CHR '' '') t))
             else None)"

definition extract_article_text :: "string \<Rightarrow> string" where
  "extract_article_text html =
     (case search_article html of
        None \<Rightarrow> ''''
      | Some (_, raw0, _) \<Rightarrow>
          (let raw1 = re_sub match_block_close (\<lambda>_. ''\<newline>'') raw0;
               raw2 = re_sub (match_element ''<script'' ''</script>'') (\<lambda>_. '''') raw1;
               raw3 = re_sub (match_element ''<style'' ''</style>'') (\<lambda>_. '''') raw2;
               text1 = re_sub match_tag (\<lambda>_. '' '') raw3;
               text2 = re_sub (match_literal ''&nbsp;'') (\<lambda>_. '' '') text1;
               text3 = re_sub match_spaces (\<lambda>_. '' '') text2;
               text4 = re_sub match_padded_newline (\<lambda>_. ''\<newline>'') text3
           in strip text4))"

section \<open>Segmenter (rebuild_kap2.py)\<close>

text \<open>
  \<open><(?:h1|h2|h3|h4).*?>\<close> with \<open>re.IGNORECASE\<close> and without \<open>re.DOTALL\<close>: the opening
  bracket, the tag name, and the characters up to the first \<open>>\<close>, none of which may be a line
  feed.  The pattern ends at the \<open>>\<close> of the opening tag: the text of the heading and
  its closing tag are not part of the match.
\<close>

definition match_heading_open :: "string \<Rightarrow> nat option" where
  "match_heading_open s =
     (if startswith_ci s ''<h1'' \<or> startswith_ci s ''<h2'' \<or> startswith_ci s ''<h3''
         \<or> startswith_ci s ''<h4''
      then (case find_sub ''>'' (drop 3 s) of
              None \<Rightarrow> None
            | Some (attrs, _) \<Rightarrow>
                if CHR ''\<newline>'' \<in> set attrs then None else Some (3 + length attrs + 1))
      else None)"

text \<open>
  \<open>^<div\s+class="info-box[^"]*">\<close> tried at the start of the text: the text behind the
  opening marker.  The greedy \<open>\s+\<close> and \<open>[^"]*\<close> can only end where their runs end.
\<close>

definition match_info_box_open :: "string \<Rightarrow> string option" where
  \<open>match_info_box_open s =
     (if startswith s ''<div'' then
        (let s1 = drop 4 s;
             ws = takeWhile isspace s1;
             s2 = drop (length ws) s1
         in if ws \<noteq> [] \<and> startswith s2 ''class="info-box'' then
              (let s3 = drop (length ''class="info-box'') s2;
                   cls = takeWhile (\<lambda>c. c \<noteq> CHR 0x22) s3;
                   s4 = drop (length cls) s3
               in if startswith s4 ''">'' then Some (drop 2 s4) else None)
            else None)
      else None)\<close>

text \<open>
  \<open>re.match(r'^<div\s+class="info-box[^"]*">\s*(.*)\s*</div>$', body, re.DOTALL)\<close>, group 1.
  The \<open></div>\<close> has to be the end of the text (\<open>$\<close> also matches before a line feed that
  ends the text); the first \<open>\s*\<close> takes the white space behind the opening marker, the
  greedy \<open>(.*)\<close> everything up to the closing marker.
\<close>

definition match_wrapper :: "string \<Rightarrow> string option" where
  "match_wrapper body =
     (case match_info_box_open body of
        None \<Rightarrow> None
      | Some rest \<Rightarrow>
          if endswith rest ''</div>''
          then Some (dropWhile isspace (take (length rest - 6) rest))
          else if endswith rest ''</div>\<newline>''
          then Some (dropWhile isspace (take (length rest - 7) rest))
          else None)"

text \<open>The loop \<open>while True\<close> of lines 36 to 45, which runs until the pattern fails.\<close>

function strip_outer :: "string \<Rightarrow> string" where
  "strip_outer body =
     (case match_wrapper body of
        Some g \<Rightarrow> strip_outer (strip g)
      | None \<Rightarrow> body)"
  by pat_completeness auto
termination
proof (relation "measure length")
  show "wf (measure (length :: string \<Rightarrow> nat))" by simp
next
  fix body g :: string
  assume m: "match_wrapper body = Some g"
  then obtain rest where r: "match_info_box_open body = Some rest"
    by (auto simp: match_wrapper_def split: option.splits)
  then have l1: "length rest \<le> length body"
    by (auto simp: match_info_box_open_def Let_def split: if_splits)
  have e: "endswith t q \<Longrightarrow> length q \<le> length t" for t q :: string
  proof -
    assume "endswith t q"
    then have "length (take (length (rev q)) (rev t)) = length (rev q)"
      by (simp only: endswith_def startswith_def)
    then show ?thesis by simp
  qed
  have l2: "length g < length rest"
  proof (cases "endswith rest ''</div>''")
    case True
    with m r have g: "g = dropWhile isspace (take (length rest - 6) rest)"
      by (simp add: match_wrapper_def)
    from e [OF True] have "6 \<le> length rest" by simp
    moreover have "length g \<le> length (take (length rest - 6) rest)"
      unfolding g by (rule length_dropWhile_le)
    ultimately show ?thesis by simp
  next
    case False
    with m r have t: "endswith rest ''</div>\<newline>''"
      and g: "g = dropWhile isspace (take (length rest - 7) rest)"
      by (simp_all add: match_wrapper_def split: if_splits)
    from e [OF t] have "7 \<le> length rest" by simp
    moreover have "length g \<le> length (take (length rest - 7) rest)"
      unfolding g by (rule length_dropWhile_le)
    ultimately show ?thesis by simp
  qed
  have "length (strip g) \<le> length g"
    unfolding strip_def
    by (metis length_dropWhile_le length_rev order_trans)
  with l1 l2 show "(strip g, body) \<in> measure length" by simp
qed

declare strip_outer.simps [simp del]

text \<open>
  The body of the loop \<open>for i in range(1, len(parts), 2)\<close>: what one heading and its body
  add to \<open>new_article\<close>.  The leading marker that line 48 removes is the one at the start
  of the text (\<open>^\<close> matches nowhere else).
\<close>

definition segment :: "string \<Rightarrow> string \<Rightarrow> string" where
  \<open>segment heading body0 =
     (let body1 = strip body0;
          body2 = strip_outer body1;
          body3 = strip (case match_info_box_open body2 of Some rest \<Rightarrow> rest | None \<Rightarrow> body2)
      in heading @ ''\<newline>'' @
         (if \<not> contains heading ''Quiz'' \<and> \<not> contains heading ''h1''
          then ''<div class="info-box">\<newline>'' @ body3 @ ''\<newline></div>\<newline>''
          else body3 @ ''\<newline>''))\<close>

text \<open>
  The loop over \<open>parts[1:]\<close>, two elements at a time; a heading without a body
  (\<open>i+1 = len(parts)\<close>) gets the empty body.
\<close>

fun rebuild_loop :: "string \<Rightarrow> string list \<Rightarrow> string" where
  "rebuild_loop new_article [] = new_article"
| "rebuild_loop new_article [heading] = new_article @ segment heading []"
| "rebuild_loop new_article (heading # body # rest) =
     rebuild_loop (new_article @ segment heading body) rest"

text \<open>
  Lines 61 to 64.  \<open>re.search(r'</article>\s*$', s)\<close> finds a match exactly when \<open>s\<close>
  without its trailing white space ends with \<open></article>\<close>.
\<close>

definition close_article :: "string \<Rightarrow> string" where
  "close_article new_article =
     (if \<not> endswith new_article ''</article>'' then
        (if \<not> endswith (rstrip new_article) ''</article>'' then new_article @ ''</article>''
         else new_article)
      else new_article)"

text \<open>Lines 15 to 64: the new article from the article that line 10 found.\<close>

definition rebuild_article :: "string \<Rightarrow> string" where
  "rebuild_article article_content =
     (case re_split match_heading_open article_content of
        [] \<Rightarrow> []
      | p0 # parts \<Rightarrow> close_article (rebuild_loop p0 parts))"

text \<open>\<open><article>.*?</article>\<close> with \<open>re.DOTALL\<close>, for \<open>re.sub\<close>\<close>

definition match_article :: "string \<Rightarrow> nat option" where
  "match_article s =
     (if startswith s ''<article>'' then
        (case find_sub ''</article>'' (drop 9 s) of
           None \<Rightarrow> None
         | Some (inner, _) \<Rightarrow> Some (9 + length inner + 10))
      else None)"

definition placeholder :: string where
  "placeholder = ''@@@ARTICLE_PLACEHOLDER@@@''"

datatype error = No_article_found

text \<open>
  Lines 10 to 70, from the content of the file to the text that is written back, or the
  error of lines 11 to 13.
\<close>

definition segmenter :: "string \<Rightarrow> error + string" where
  "segmenter content =
     (case search_article content of
        None \<Rightarrow> Inl No_article_found
      | Some (_, inner, _) \<Rightarrow>
          (let article_content = ''<article>'' @ inner @ ''</article>'';
               new_article = rebuild_article article_content;
               output = re_sub match_article (\<lambda>_. placeholder) content
           in Inr (re_sub (match_literal placeholder) (\<lambda>_. new_article) output)))"

text \<open>
  A run of the script on a file with the given content: the content of the file after the
  run, the lines printed, and the exit status.
\<close>

record run =
  disk :: string
  printed :: "string list"
  status :: nat

definition rebuild_kap2 :: "string \<Rightarrow> run" where
  "rebuild_kap2 content =
     (case segmenter content of
        Inl No_article_found \<Rightarrow>
          \<lparr>disk = content, printed = [''No article found''], status = 1\<rparr>
      | Inr output \<Rightarrow> \<lparr>disk = output, printed = [], status = 0\<rparr>)"

subsection \<open>The headings of an article (fix_kap1.py)\<close>

text \<open>
  The headings of levels 2 to 4 as fix_kap1.py (line 29) finds them:
  \<open><(h2|h3|h4).*?>.*?</\1>\<close> with \<open>re.IGNORECASE | re.DOTALL\<close>.  The first lazy \<open>.*?\<close>
  ends at the first \<open>>\<close>, the second at the first closing tag of the same name behind it.
\<close>

definition match_heading :: "string \<Rightarrow> nat option" where
  "match_heading s =
     (if startswith_ci s ''<h2'' \<or> startswith_ci s ''<h3'' \<or> startswith_ci s ''<h4''
      then (case find_sub ''>'' (drop 3 s) of
              None \<Rightarrow> None
            | Some (attrs, rest) \<Rightarrow>
                (case find_sub_ci (''</'' @ map ascii_lower (take 2 (drop 1 s)) @ ''>'') rest of
                   None \<Rightarrow> None
                 | Some (inner, _) \<Rightarrow> Some (3 + length attrs + 1 + length inner + 5)))
      else None)"

definition headings :: "string \<Rightarrow> string list" where
  "headings article_content = find_scan match_heading 0 article_content"

section \<open>Span Stripper (clean_glossary.py)\<close>















section \<open>Depth Auditor (check_depth.py, debug_file.py)\<close>

text \<open>\<open>s.count(p)\<close> for a text \<open>p\<close> that is not empty: the occurrences that do not overlap.\<close>

fun count_scan :: "string \<Rightarrow> nat \<Rightarrow> string \<Rightarrow> nat" where
  "count_scan p k [] = 0"
| "count_scan p (Suc k) (c # cs) = count_scan p k cs"
| "count_scan p 0 (c # cs) =
     (if startswith (c # cs) p then Suc (count_scan p (length p - 1) cs)
      else count_scan p 0 cs)"

definition count :: "string \<Rightarrow> string \<Rightarrow> nat" where
  "count s p = count_scan p 0 s"

text \<open>
  \<open>f.readlines()\<close> on the text of the file (in which text mode has turned every line
  end into a line feed): every line keeps its line feed.
\<close>

fun readlines_from :: "string \<Rightarrow> string \<Rightarrow> string list" where
  "readlines_from line [] = (if line = [] then [] else [line])"
| "readlines_from line (c # cs) =
     (if c = CHR ''\<newline>'' then (line @ [c]) # readlines_from [] cs
      else readlines_from (line @ [c]) cs)"

definition readlines :: "string \<Rightarrow> string list" where
  "readlines content = readlines_from [] content"

definition has_heading :: "string \<Rightarrow> bool" where
  "has_heading line = (contains line ''<h3>'' \<or> contains line ''<h4>'' \<or> contains line ''<h2>'')"

text \<open>
  What check_depth.py prints for a line with a heading: the number of the line, the depth
  in front of it, and the line without the white space around it.
\<close>

record heading_record =
  line_num :: nat
  depth_before :: int
  line_content :: string

text \<open>
  The loop of check_depth.py, lines 7 to 24: the depth after the last line and the records
  printed.  \<open>i\<close> is the index of the first of the lines.
\<close>

fun check_depth :: "int \<Rightarrow> nat \<Rightarrow> string list \<Rightarrow> int \<times> heading_record list" where
  "check_depth depth i [] = (depth, [])"
| "check_depth depth i (line # lines) =
     (let line_num = i + 1;
          opens = count line ''<div'';
          closes = count line ''</div>''
      in if opens > 0 \<or> closes > 0 then
           (let old_depth = depth;
                depth' = depth + (int opens - int closes);
                (final, records) = check_depth depth' (i + 1) lines
            in if has_heading line
               then (final, \<lparr>line_num = line_num, depth_before = old_depth,
                              line_content = strip line\<rparr> # records)
               else (final, records))
         else if has_heading line then
           (let (final, records) = check_depth depth (i + 1) lines
            in (final, \<lparr>line_num = line_num, depth_before = depth,
                         line_content = strip line\<rparr> # records))
         else check_depth depth (i + 1) lines)"

text \<open>
  What debug_file.py prints for a line: the number of the line, the depth in front of it
  and behind it, and the first 60 characters of the line without the white space around
  it.
\<close>

record depth_record =
  line_no :: nat
  old_depth :: int
  new_depth :: int
  shown :: string

text \<open>The loop of debug_file.py, lines 13 to 23 (debug_depth.py has the same loop).\<close>

fun debug_file :: "int \<Rightarrow> nat \<Rightarrow> string list \<Rightarrow> int \<times> depth_record list" where
  "debug_file depth i [] = (depth, [])"
| "debug_file depth i (line # lines) =
     (let line_num = i + 1;
          opens = count line ''<div'';
          closes = count line ''</div>'';
          old = depth;
          depth' = depth + (int opens - int closes);
          (final, records) = debug_file depth' (i + 1) lines
      in if opens \<noteq> closes \<or> has_heading line
         then (final, \<lparr>line_no = line_num, old_depth = old, new_depth = depth',
                        shown = take 60 (strip line)\<rparr> # records)
         else (final, records))"

section \<open>Properties of the search functions\<close>

lemma find_sub_Some: "find_sub p s = Some (a, b) \<Longrightarrow> s = a @ p @ b"
proof (induction s arbitrary: a b)
  case Nil
  then show ?case by (simp split: if_splits)
next
  case (Cons c cs)
  show ?case
  proof (cases "startswith (c # cs) p")
    case True
    with Cons.prems have "a = []" "b = drop (length p) (c # cs)" by simp_all
    moreover from True have "take (length p) (c # cs) = p" by (simp add: startswith_def)
    ultimately show ?thesis by (metis append_Nil append_take_drop_id)
  next
    case False
    with Cons.prems obtain a' where "find_sub p cs = Some (a', b)" "a = c # a'"
      by (auto split: option.splits)
    with Cons.IH show ?thesis by simp
  qed
qed

lemma find_sub_None: "find_sub p s = None \<Longrightarrow> s \<noteq> a @ p @ b"
proof (induction s arbitrary: a)
  case Nil
  then show ?case by (simp split: if_splits)
next
  case (Cons c cs)
  from Cons.prems have ns: "\<not> startswith (c # cs) p" and nf: "find_sub p cs = None"
    by (auto split: if_splits option.splits)
  show ?case
  proof (cases a)
    case Nil
    with ns show ?thesis by (auto simp: startswith_def)
  next
    case (Cons x a')
    with Cons.IH [OF nf, of a'] show ?thesis by auto
  qed
qed

text \<open>The occurrence that \<open>find_sub\<close> returns is the first one.\<close>

lemma find_sub_first:
  "find_sub p s = Some (a', r) \<Longrightarrow> s = a @ p @ b \<Longrightarrow> length a' \<le> length a"
proof (induction s arbitrary: a a')
  case Nil
  then show ?case by (simp split: if_splits)
next
  case (Cons c cs)
  show ?case
  proof (cases "startswith (c # cs) p")
    case True
    with Cons.prems(1) have "a' = []" by simp
    then show ?thesis by simp
  next
    case False
    with Cons.prems(1) obtain a'' where f: "find_sub p cs = Some (a'', r)" and a': "a' = c # a''"
      by (auto split: option.splits)
    from False Cons.prems(2) have "a \<noteq> []" by (auto simp: startswith_def)
    then obtain a0 where a: "a = c # a0" and cs: "cs = a0 @ p @ b"
      using Cons.prems(2) by (cases a) auto
    from Cons.IH [OF f cs] a a' show ?thesis by simp
  qed
qed


text \<open>
  \<open>find_between\<close> fails exactly on the texts that hold no \<open>p\<close> with a \<open>q\<close> behind it.
\<close>

lemma find_between_None_iff:
  "find_between p q s = None \<longleftrightarrow> (\<nexists>a b c. s = a @ p @ b @ q @ c)"
proof
  assume n: "find_between p q s = None"
  show "\<nexists>a b c. s = a @ p @ b @ q @ c"
  proof
    assume "\<exists>a b c. s = a @ p @ b @ q @ c"
    then obtain a b c where h: "s = a @ p @ b @ q @ c" by blast
    then have "find_sub p s \<noteq> None"
      using find_sub_None [of p s a "b @ q @ c"] by blast
    then obtain a' r where f: "find_sub p s = Some (a', r)"
      by (metis not_None_eq surj_pair)
    with n have n2: "find_sub q r = None"
      by (auto simp: find_between_def split: option.splits)
    from f have e: "s = a' @ p @ r" by (rule find_sub_Some)
    from find_sub_first [OF f h] have le: "length (a' @ p) \<le> length (a @ p)" by simp
    from e h have "(a' @ p) @ r = (a @ p) @ (b @ q @ c)" by simp
    with le obtain x where "r = x @ b @ q @ c"
      by (metis append_eq_append_conv_if append_take_drop_id)
    then have "r = (x @ b) @ q @ c" by simp
    with find_sub_None [OF n2] show False by blast
  qed
next
  assume "\<nexists>a b c. s = a @ p @ b @ q @ c"
  then show "find_between p q s = None"
    by (auto simp: find_between_def split: option.splits dest!: find_sub_Some)
qed

text \<open>
  A substitution whose replacements equal the texts they replace changes nothing.
\<close>

lemma sub_scan_fixed:
  "(\<And>a u n. s = a @ u \<Longrightarrow> m u = Some (Suc n) \<Longrightarrow> r (take (Suc n) u) = take (Suc n) u)
   \<Longrightarrow> sub_scan m r k s = drop k s"
proof (induction s arbitrary: k)
  case Nil
  then show ?case by simp
next
  case (Cons x xs)
  have ih: "sub_scan m r j xs = drop j xs" for j
  proof (rule Cons.IH)
    fix a u n
    assume "xs = a @ u" and mu: "m u = Some (Suc n)"
    then have "x # xs = (x # a) @ u" by simp
    from Cons.prems [OF this mu] show "r (take (Suc n) u) = take (Suc n) u" .
  qed
  show ?case
  proof (cases k)
    case (Suc j)
    with ih show ?thesis by simp
  next
    case 0
    show ?thesis
    proof (cases "m (x # xs)")
      case None
      with 0 ih show ?thesis by simp
    next
      case (Some l)
      show ?thesis
      proof (cases l)
        case 0
        with Some \<open>k = 0\<close> ih show ?thesis by simp
      next
        case (Suc n)
        with Some have mu: "m (x # xs) = Some (Suc n)" by simp
        have "x # xs = [] @ (x # xs)" by simp
        from Cons.prems [OF this mu] have "r (take (Suc n) (x # xs)) = take (Suc n) (x # xs)" .
        with mu \<open>k = 0\<close> ih show ?thesis by simp
      qed
    qed
  qed
qed

section \<open>Text Extractor\<close>

lemma isspace_newline: "isspace (CHR ''\<newline>'')"
  by (simp add: isspace_def)

text \<open>After \<open>re.sub(r'\s+', ' ', text)\<close> the only white space left is the blank.\<close>

lemma sub_scan_spaces:
  "c \<in> set (sub_scan match_spaces (\<lambda>_. '' '') k s) \<Longrightarrow> isspace c \<Longrightarrow> c = CHR '' ''"
proof (induction s arbitrary: k)
  case Nil
  then show ?case by simp
next
  case (Cons x xs)
  show ?case
  proof (cases k)
    case (Suc j)
    with Cons show ?thesis by simp
  next
    case 0
    show ?thesis
    proof (cases "isspace x")
      case True
      then obtain n where "match_spaces (x # xs) = Some (Suc n)"
        by (simp add: match_spaces_def)
      with 0 Cons.prems(1)
      have "c = CHR '' '' \<or> c \<in> set (sub_scan match_spaces (\<lambda>_. '' '') n xs)"
        by auto
      with Cons.IH Cons.prems(2) show ?thesis by blast
    next
      case False
      then have "match_spaces (x # xs) = None" by (simp add: match_spaces_def)
      with 0 Cons.prems(1)
      have "c = x \<or> c \<in> set (sub_scan match_spaces (\<lambda>_. '' '') 0 xs)"
        by auto
      with Cons.IH Cons.prems(2) False show ?thesis by blast
    qed
  qed
qed

lemma match_padded_newline_Some:
  "match_padded_newline u = Some n \<Longrightarrow> CHR ''\<newline>'' \<in> set u"
proof -
  assume a: "match_padded_newline u = Some n"
  define a where "a = takeWhile (\<lambda>c. c = CHR '' '') u"
  from a obtain t where "drop (length a) u = CHR ''\<newline>'' # t"
    by (auto simp: match_padded_newline_def Let_def a_def split: list.splits if_splits)
  then have "CHR ''\<newline>'' \<in> set (drop (length a) u)" by simp
  then show ?thesis by (rule in_set_dropD)
qed

lemma set_strip: "set (strip s) \<subseteq> set s"
  by (auto simp: strip_def dest!: set_dropWhileD)

text \<open>
  C3 (extract_chapter_text.py, lines 9 to 26).  On the input
  \<open><article><h2>Title</h2><p>Hello&nbsp;world</p></article>\<close> the claim expects a line feed
  between \<open>Title\<close> and \<open>Hello\<close>.  Line 16 puts the line feed there and line 25 is written
  to keep it, but line 24 replaces every run of white space, line feeds included, by one
  blank before line 25 runs: the function returns \<open>Title Hello world\<close>.
\<close>

theorem extract_example_one_line:
  "extract_article_text ''<article><h2>Title</h2><p>Hello&nbsp;world</p></article>''
     = ''Title Hello world''"
  by code_simp

text \<open>
  C7: for every input with no article container region, that is, with no \<open><article>\<close>
  that has an \<open></article>\<close> behind it, \<open>extract_article_text\<close> returns the empty string.
  The function is total: no input raises an error.
\<close>

theorem extract_no_container:
  "(\<nexists>a b c. html = a @ ''<article>'' @ b @ ''</article>'' @ c)
   \<Longrightarrow> extract_article_text html = ''''"
proof -
  assume "\<nexists>a b c. html = a @ ''<article>'' @ b @ ''</article>'' @ c"
  then have "search_article html = None"
    unfolding search_article_def by (rule find_between_None_iff [THEN iffD2])
  then show ?thesis by (simp add: extract_article_text_def)
qed

theorem extract_no_container_witness:
  "(\<nexists>a b c. ''<h2>Title</h2></article>'' = a @ ''<article>'' @ b @ ''</article>'' @ c)
   \<and> extract_article_text ''<h2>Title</h2></article>'' = ''''"
proof -
  have "find_between ''<article>'' ''</article>'' ''<h2>Title</h2></article>'' = None"
    by code_simp
  then have h: "\<nexists>a b c. ''<h2>Title</h2></article>'' = a @ ''<article>'' @ b @ ''</article>'' @ c"
    by (rule find_between_None_iff [THEN iffD1])
  from h extract_no_container [OF h] show ?thesis by (rule conjI)
qed

text \<open>
  C10: for every input the text that \<open>extract_article_text\<close> returns holds no line feed.
  Line 24 leaves no white space but blanks, so the pattern of line 25 finds nothing and
  \<open>strip\<close> only removes characters.
\<close>

theorem extract_single_line: "CHR ''\<newline>'' \<notin> set (extract_article_text html)"
proof (cases "search_article html")
  case None
  then show ?thesis by (simp add: extract_article_text_def)
next
  case (Some t)
  obtain b raw0 a where t: "t = (b, raw0, a)" by (cases t) auto
  define text2 where "text2 =
    re_sub (match_literal ''&nbsp;'') (\<lambda>_. '' '')
      (re_sub match_tag (\<lambda>_. '' '')
        (re_sub (match_element ''<style'' ''</style>'') (\<lambda>_. '''')
          (re_sub (match_element ''<script'' ''</script>'') (\<lambda>_. '''')
            (re_sub match_block_close (\<lambda>_. ''\<newline>'') raw0))))"
  define text3 where "text3 = re_sub match_spaces (\<lambda>_. '' '') text2"
  have e: "extract_article_text html
             = strip (re_sub match_padded_newline (\<lambda>_. ''\<newline>'') text3)"
    unfolding extract_article_text_def Some t text3_def text2_def by (simp add: Let_def)
  have n3: "CHR ''\<newline>'' \<notin> set text3"
  proof
    assume "CHR ''\<newline>'' \<in> set text3"
    then have "CHR ''\<newline>'' = CHR '' ''"
      unfolding text3_def re_sub_def by (rule sub_scan_spaces) (rule isspace_newline)
    then show False by simp
  qed
  have "sub_scan match_padded_newline (\<lambda>_. ''\<newline>'') 0 text3 = drop 0 text3"
  proof (rule sub_scan_fixed)
    fix a u n
    assume "text3 = a @ u" and "match_padded_newline u = Some (Suc n)"
    then have "CHR ''\<newline>'' \<in> set text3"
      by (auto dest: match_padded_newline_Some)
    with n3 show "(\<lambda>_. ''\<newline>'') (take (Suc n) u) = take (Suc n) u" by blast
  qed
  with e have "extract_article_text html = strip text3" by (simp add: re_sub_def)
  with set_strip [of text3] n3 show ?thesis by auto
qed

section \<open>Segmenter\<close>

lemma match_info_box_open_plain:
  \<open>match_info_box_open (''<div class="info-box">'' @ y) = Some y\<close>
  by (simp add: match_info_box_open_def startswith_def isspace_def Let_def)

lemma endswith_append: "endswith (a @ p) p"
  by (simp add: endswith_def startswith_def)

lemma strip_fixed_front: "strip x = x \<Longrightarrow> dropWhile isspace x = x"
proof -
  assume s: "strip x = x"
  have "length (strip x) \<le> length (dropWhile isspace x)"
    unfolding strip_def by (metis length_dropWhile_le length_rev)
  with s have le: "length x \<le> length (dropWhile isspace x)" by simp
  have id: "takeWhile isspace x @ dropWhile isspace x = x" by simp
  then have "length (takeWhile isspace x) + length (dropWhile isspace x) = length x"
    by (metis length_append)
  with le have "length (takeWhile isspace x) = 0" by linarith
  then have "takeWhile isspace x = []" by simp
  with id show ?thesis by simp
qed

lemma strip_wrapped:
  "strip (CHR ''<'' # y @ ''>'') = CHR ''<'' # y @ ''>''"
  by (simp add: strip_def isspace_def)

lemma match_wrapper_plain:
  \<open>match_wrapper (''<div class="info-box">'' @ y @ ''</div>'') = Some (dropWhile isspace y)\<close>
proof -
  have e: "endswith (y @ ''</div>'') ''</div>''" by (rule endswith_append)
  have t: "take (length (y @ ''</div>'') - 6) (y @ ''</div>'') = y" by simp
  show ?thesis
    unfolding match_wrapper_def match_info_box_open_plain
    by (simp only: option.case e if_True t)
qed

text \<open>
  Two wrappers around a text that is trimmed and is no wrapper itself: the loop returns
  that text.
\<close>

lemma strip_outer_collapses:
  assumes "strip x = x" and "match_wrapper x = None"
  shows \<open>strip_outer (''<div class="info-box">'' @ ''<div class="info-box">'' @ x @ ''</div>'' @ ''</div>'') = x\<close>
proof -
  let ?w = \<open>''<div class="info-box">'' @ x @ ''</div>''\<close>
  have w: "strip ?w = ?w"
    using strip_wrapped [of \<open>''div class="info-box">'' @ x @ ''</div''\<close>] by simp
  have "dropWhile isspace ?w = ?w" using w by (rule strip_fixed_front)
  with match_wrapper_plain [of ?w]
  have 1: \<open>match_wrapper (''<div class="info-box">'' @ ?w @ ''</div>'') = Some ?w\<close> by simp
  from assms(1) have "dropWhile isspace x = x" by (rule strip_fixed_front)
  with match_wrapper_plain [of x] have 2: "match_wrapper ?w = Some x" by simp
  have "strip_outer (''<div class=\"info-box\">'' @ ?w @ ''</div>'') = strip_outer (strip ?w)"
    using 1 by (subst strip_outer.simps) simp
  also have "\<dots> = strip_outer ?w" using w by simp
  also have "\<dots> = strip_outer (strip x)" using 2 by (subst strip_outer.simps) simp
  also have "\<dots> = strip_outer x" using assms(1) by simp
  also have "\<dots> = x" using assms(2) by (subst strip_outer.simps) simp
  finally show ?thesis by simp
qed

text \<open>
  C5: on the body \<open><div class="info-box"><div class="info-box">X</div></div>\<close> the loop
  that strips outer wrappers ends and yields \<open>X\<close>.  \<open>strip_outer\<close> is a total function
  (the body gets shorter with every round); the first round leaves the inner wrapper, the
  second leaves \<open>X\<close>, and on \<open>X\<close> the pattern fails.
\<close>

theorem strip_outer_nested:
  \<open>match_wrapper ''<div class="info-box"><div class="info-box">X</div></div>''
      = Some ''<div class="info-box">X</div>''
   \<and> match_wrapper ''<div class="info-box">X</div>'' = Some ''X''
   \<and> match_wrapper ''X'' = None
   \<and> strip_outer ''<div class="info-box"><div class="info-box">X</div></div>'' = ''X''\<close>
  by code_simp

text \<open>
  C6: when the document holds no article container region, the run prints
  \<open>No article found\<close>, exits with status 1 and leaves the file as it was; when it holds
  one, the run ends with status 0 and has written the new content, so the missing
  container is the only error of the Segmenter.
\<close>

theorem segmenter_container_not_found:
  "((\<nexists>a b c. content = a @ ''<article>'' @ b @ ''</article>'' @ c) \<longrightarrow>
      segmenter content = Inl No_article_found \<and>
      rebuild_kap2 content
        = \<lparr>disk = content, printed = [''No article found''], status = 1\<rparr>)
   \<and> ((\<exists>a b c. content = a @ ''<article>'' @ b @ ''</article>'' @ c) \<longrightarrow>
      (\<exists>output. segmenter content = Inr output \<and>
         rebuild_kap2 content = \<lparr>disk = output, printed = [], status = 0\<rparr>))"
proof (cases "search_article content")
  case None
  then have "\<nexists>a b c. content = a @ ''<article>'' @ b @ ''</article>'' @ c"
    unfolding search_article_def by (rule find_between_None_iff [THEN iffD1])
  moreover from None have "segmenter content = Inl No_article_found"
    by (simp add: segmenter_def)
  ultimately show ?thesis by (simp add: rebuild_kap2_def)
next
  case (Some t)
  then have "search_article content \<noteq> None" by simp
  then have ex: "\<exists>a b c. content = a @ ''<article>'' @ b @ ''</article>'' @ c"
    unfolding search_article_def find_between_None_iff by blast
  obtain b inner a where "t = (b, inner, a)" by (cases t) auto
  with Some obtain out where "segmenter content = Inr out"
    by (simp add: segmenter_def Let_def)
  with ex show ?thesis by (simp add: rebuild_kap2_def)
qed

theorem segmenter_container_not_found_witness:
  "rebuild_kap2 ''<h2>Title</h2><p>x</p>''
     = \<lparr>disk = ''<h2>Title</h2><p>x</p>'', printed = [''No article found''], status = 1\<rparr>
   \<and> (\<exists>output. segmenter ''<article>y</article>'' = Inr output \<and>
         rebuild_kap2 ''<article>y</article>'' = \<lparr>disk = output, printed = [], status = 0\<rparr>)"
proof -
  have "find_between ''<article>'' ''</article>'' ''<h2>Title</h2><p>x</p>'' = None"
    by code_simp
  then have h1: "\<nexists>a b c. ''<h2>Title</h2><p>x</p>'' = a @ ''<article>'' @ b @ ''</article>'' @ c"
    by (rule find_between_None_iff [THEN iffD1])
  have "''<article>y</article>'' = [] @ ''<article>'' @ ''y'' @ ''</article>'' @ []"
    by simp
  then have h2: "\<exists>a b c. ''<article>y</article>'' = a @ ''<article>'' @ b @ ''</article>'' @ c"
    by blast
  from segmenter_container_not_found [of "''<h2>Title</h2><p>x</p>''"] h1
  have w1: "rebuild_kap2 ''<h2>Title</h2><p>x</p>''
     = \<lparr>disk = ''<h2>Title</h2><p>x</p>'', printed = [''No article found''], status = 1\<rparr>"
    by blast
  from segmenter_container_not_found [of "''<article>y</article>''"] h2
  have w2: "\<exists>output. segmenter ''<article>y</article>'' = Inr output \<and>
         rebuild_kap2 ''<article>y</article>'' = \<lparr>disk = output, printed = [], status = 0\<rparr>"
    by blast
  from w1 w2 show ?thesis by (rule conjI)
qed

text \<open>
  C1: the headings of levels 2 to 4 should be the same before and after the Segmenter.
  The pattern of line 19 ends at the \<open>>\<close> of the opening tag, so the text of a heading
  and its closing tag are part of the body that follows: on
  \<open><article><h2>Title</h2><p>x</p></article>\<close> the Segmenter puts the line feed and the
  opening marker of the wrapper between \<open><h2>\<close> and \<open>Title</h2>\<close>.  The heading that
  fix_kap1.py (line 29) finds is \<open><h2>Title</h2>\<close> before the run and another text after
  it.
\<close>

theorem segmenter_moves_heading_text:
  \<open>segmenter ''<article><h2>Title</h2><p>x</p></article>''
     = Inr ''<article><h2>\<newline><div class="info-box">\<newline>Title</h2><p>x</p></article>\<newline></div>\<newline></article>''
   \<and> headings ''<article><h2>Title</h2><p>x</p></article>'' = [''<h2>Title</h2>'']
   \<and> headings ''<article><h2>\<newline><div class="info-box">\<newline>Title</h2><p>x</p></article>\<newline></div>\<newline></article>''
     = [''<h2>\<newline><div class="info-box">\<newline>Title</h2>'']
   \<and> mset (headings ''<article><h2>Title</h2><p>x</p></article>'')
       \<noteq> mset (headings ''<article><h2>\<newline><div class="info-box">\<newline>Title</h2><p>x</p></article>\<newline></div>\<newline></article>'')\<close>
proof -
  have a: \<open>segmenter ''<article><h2>Title</h2><p>x</p></article>''
     = Inr ''<article><h2>\<newline><div class="info-box">\<newline>Title</h2><p>x</p></article>\<newline></div>\<newline></article>''\<close>
    by code_simp
  have b: "headings ''<article><h2>Title</h2><p>x</p></article>'' = [''<h2>Title</h2>'']"
    by code_simp
  have c: \<open>headings ''<article><h2>\<newline><div class="info-box">\<newline>Title</h2><p>x</p></article>\<newline></div>\<newline></article>''
     = [''<h2>\<newline><div class="info-box">\<newline>Title</h2>'']\<close>
    by code_simp
  have d: \<open>mset [''<h2>Title</h2>''] \<noteq> mset [''<h2>\<newline><div class="info-box">\<newline>Title</h2>'']\<close>
    by simp
  have e: \<open>mset (headings ''<article><h2>Title</h2><p>x</p></article>'')
       \<noteq> mset (headings ''<article><h2>\<newline><div class="info-box">\<newline>Title</h2><p>x</p></article>\<newline></div>\<newline></article>'')\<close>
    unfolding b c by (rule d)
  from a b c e show ?thesis by blast
qed

text \<open>
  C2: a second run of the Segmenter should change nothing.  The body of the last heading
  holds the \<open></article>\<close> of the container; the first run wraps it, finds no
  \<open></article>\<close> at the end and appends one (lines 61 to 64).  The second run stops at
  the first \<open></article>\<close>, rebuilds the same article, and puts it in front of the rest of
  the first output: every run adds a closing \<open></div>\<close> and a closing \<open></article>\<close>.
\<close>

theorem segmenter_second_run_differs:
  \<open>segmenter ''<article><h3>T</h3>x</article>''
     = Inr ''<article><h3>\<newline><div class="info-box">\<newline>T</h3>x</article>\<newline></div>\<newline></article>''
   \<and> segmenter ''<article><h3>\<newline><div class="info-box">\<newline>T</h3>x</article>\<newline></div>\<newline></article>''
     = Inr ''<article><h3>\<newline><div class="info-box">\<newline>T</h3>x</article>\<newline></div>\<newline></article>\<newline></div>\<newline></article>''
   \<and> segmenter ''<article><h3>\<newline><div class="info-box">\<newline>T</h3>x</article>\<newline></div>\<newline></article>''
     \<noteq> Inr ''<article><h3>\<newline><div class="info-box">\<newline>T</h3>x</article>\<newline></div>\<newline></article>''\<close>
proof -
  have first: \<open>segmenter ''<article><h3>T</h3>x</article>''
     = Inr ''<article><h3>\<newline><div class="info-box">\<newline>T</h3>x</article>\<newline></div>\<newline></article>''\<close>
    by code_simp
  have second: \<open>segmenter ''<article><h3>\<newline><div class="info-box">\<newline>T</h3>x</article>\<newline></div>\<newline></article>''
     = Inr ''<article><h3>\<newline><div class="info-box">\<newline>T</h3>x</article>\<newline></div>\<newline></article>\<newline></div>\<newline></article>''\<close>
    by code_simp
  have differs: \<open>segmenter ''<article><h3>\<newline><div class="info-box">\<newline>T</h3>x</article>\<newline></div>\<newline></article>''
     \<noteq> Inr ''<article><h3>\<newline><div class="info-box">\<newline>T</h3>x</article>\<newline></div>\<newline></article>''\<close>
    unfolding second by simp
  from first second differs show ?thesis by blast
qed

text \<open>
  C4: the body of a heading whose text holds \<open>Quiz\<close>, and the body of the \<open>h1\<close> title,
  should stay without wrapper.  Line 55 looks for \<open>Quiz\<close> and \<open>h1\<close> in \<open>heading\<close>, which
  is the opening tag only: for \<open><h2>Quiz</h2>\<close> the heading is \<open><h2>\<close> and the body, which
  starts with \<open>Quiz</h2>\<close>, is wrapped; so is the body of a title written \<open><H1>\<close>, which
  line 19 splits at without regard to case.
\<close>

theorem segment_wraps_quiz:
  \<open>re_split match_heading_open ''<article><h2>Quiz</h2><p>q</p></article>''
     = [''<article>'', ''<h2>'', ''Quiz</h2><p>q</p></article>'']
   \<and> segment ''<h2>'' ''Quiz</h2><p>q</p></article>''
     = ''<h2>\<newline><div class="info-box">\<newline>Quiz</h2><p>q</p></article>\<newline></div>\<newline>''
   \<and> re_split match_heading_open ''<article><H1>Doc</H1>intro</article>''
     = [''<article>'', ''<H1>'', ''Doc</H1>intro</article>'']
   \<and> segment ''<H1>'' ''Doc</H1>intro</article>''
     = ''<H1>\<newline><div class="info-box">\<newline>Doc</H1>intro</article>\<newline></div>\<newline>''\<close>
  by code_simp

section \<open>Span Stripper\<close>














section \<open>Depth Auditor\<close>

text \<open>
  The depth at the end of a scan is the depth at its start plus the sum, over the lines,
  of the opening markers minus the closing markers.
\<close>

lemma check_depth_sum:
  "fst (check_depth depth i lines)
     = depth + (\<Sum>line\<leftarrow>lines. int (count line ''<div'') - int (count line ''</div>''))"
proof (induction lines arbitrary: depth i)
  case Nil
  then show ?case by simp
next
  case (Cons line lines)
  show ?case
    by (simp add: Let_def split_beta Cons.IH)
qed

lemma debug_file_sum:
  "fst (debug_file depth i lines)
     = depth + (\<Sum>line\<leftarrow>lines. int (count line ''<div'') - int (count line ''</div>''))"
proof (induction lines arbitrary: depth i)
  case Nil
  then show ?case by simp
next
  case (Cons line lines)
  show ?case
    by (simp add: Let_def split_beta Cons.IH)
qed

text \<open>
  C9: on the four lines \<open><div>\<close>, \<open><div>\<close>, \<open></div>\<close>, \<open></div>\<close>, none of which holds a
  heading, the scan ends with depth 0 and no record of a heading: check_depth.py prints
  nothing, and debug_file.py prints the four lines where the depth changes, the last of
  them with depth 0 behind it.
\<close>

theorem depth_scan_balanced:
  "readlines ''<div>\<newline><div>\<newline></div>\<newline></div>\<newline>''
      = [''<div>\<newline>'', ''<div>\<newline>'', ''</div>\<newline>'', ''</div>\<newline>'']
   \<and> filter has_heading [''<div>\<newline>'', ''<div>\<newline>'', ''</div>\<newline>'', ''</div>\<newline>''] = []
   \<and> check_depth 0 0 [''<div>\<newline>'', ''<div>\<newline>'', ''</div>\<newline>'', ''</div>\<newline>''] = (0, [])
   \<and> debug_file 0 0 [''<div>\<newline>'', ''<div>\<newline>'', ''</div>\<newline>'', ''</div>\<newline>'']
       = (0, [\<lparr>line_no = 1, old_depth = 0, new_depth = 1, shown = ''<div>''\<rparr>,
              \<lparr>line_no = 2, old_depth = 1, new_depth = 2, shown = ''<div>''\<rparr>,
              \<lparr>line_no = 3, old_depth = 2, new_depth = 1, shown = ''</div>''\<rparr>,
              \<lparr>line_no = 4, old_depth = 1, new_depth = 0, shown = ''</div>''\<rparr>])"
  by code_simp

end
